theory Spec2Isabelle
  imports Main
begin

section \<open>The session cache of \<open>static/js/auth.js\<close>\<close>

text \<open>
  The module keeps two variables, \<open>currentUser\<close> and \<open>fetchPromise\<close>, and works on
  three things of the browser: \<open>localStorage\<close>, \<open>fetch\<close> and \<open>window.location\<close>.
  JavaScript runs one job at a time and a job runs to completion, so the module is
  modelled as a state machine: every call of an exported function is one step, and
  every settling of an awaited promise (the \<open>fetch\<close>, then \<open>response.json()\<close>) is one
  step that runs the body of the async arrow function up to its next \<open>await\<close> or its end.
\<close>

subsection \<open>Values\<close>

text \<open>
  JavaScript values as far as the module looks at them: it tests truthiness and
  stores what \<open>response.json()\<close> gives. Numbers are abstracted to integers; only
  being zero matters to the code.
\<close>

datatype jsval =
    JUndefined
  | JNull
  | JBool bool
  | JNum int
  | JStr string
  | JArr "jsval list"
  | JObj "(string \<times> jsval) list"

fun truthy :: "jsval \<Rightarrow> bool" where
  "truthy JUndefined = False"
| "truthy JNull = False"
| "truthy (JBool b) = b"
| "truthy (JNum n) = (n \<noteq> 0)"
| "truthy (JStr s) = (s \<noteq> [])"
| "truthy (JArr xs) = True"
| "truthy (JObj kvs) = True"

type_synonym pid = nat

type_synonym js_error = string

text \<open>Of a \<open>Response\<close> the code reads \<open>ok\<close>; the body arrives when \<open>json()\<close> settles.\<close>

record response =
  ok :: bool

record request =
  url :: string
  headers :: "(string \<times> string) list"

text \<open>
  The promise of the async arrow function of lines 19 to 40: suspended at one of its
  two \<open>await\<close>s, or settled.
\<close>

datatype await_point = AwaitFetch | AwaitJson

datatype pstate = Awaiting await_point | Fulfilled jsval | Rejected js_error

fun is_pending :: "pstate \<Rightarrow> bool" where
  "is_pending (Awaiting a) = True"
| "is_pending (Fulfilled v) = False"
| "is_pending (Rejected e) = False"

text \<open>
  What a call of \<open>getCurrentUser\<close> hands to its caller. The function is \<open>async\<close>, so
  the caller gets a promise resolved with the operand of the \<open>return\<close> that ran: a
  plain value (the promise is fulfilled with it), or a promise of the store (the
  caller's promise follows it, and settles as it settles).
\<close>

datatype ret = Value jsval | Promise pid

record state =
  currentUser :: jsval
  fetchPromise :: "pid option"
  localStorage :: "string \<rightharpoonup> string"
  href :: string
  console :: "(string \<times> js_error) list"
  requests :: "request list"
  promises :: "pstate list"

text \<open>
  The module is loaded with both variables \<open>null\<close>; the storage and the location are
  the browser's, whatever they hold.
\<close>

definition initial :: "(string \<rightharpoonup> string) \<Rightarrow> string \<Rightarrow> state" where
  "initial ls loc =
     \<lparr>currentUser = JNull, fetchPromise = None, localStorage = ls, href = loc,
      console = [], requests = [], promises = []\<rparr>"

subsection \<open>The browser\<close>

definition getItem :: "string \<Rightarrow> state \<Rightarrow> string option" where
  "getItem k s = localStorage s k"

definition setItem :: "string \<Rightarrow> string \<Rightarrow> state \<Rightarrow> state" where
  "setItem k v s = s\<lparr>localStorage := (localStorage s)(k \<mapsto> v)\<rparr>"

definition removeItem :: "string \<Rightarrow> state \<Rightarrow> state" where
  "removeItem k s = s\<lparr>localStorage := (localStorage s)(k := None)\<rparr>"

text \<open>
  \<open>fetch\<close> sends the request and returns a pending promise. It does not throw: the
  Fetch API reports every failure, a bad header value included, by rejecting the
  promise, and an \<open>await\<close> resumes in a later job, after line 42 has run.
\<close>

definition fetch :: "string \<Rightarrow> (string \<times> string) list \<Rightarrow> state \<Rightarrow> state" where
  "fetch u hs s = s\<lparr>requests := requests s @ [\<lparr>url = u, headers = hs\<rparr>]\<rparr>"

definition console_error :: "string \<Rightarrow> js_error \<Rightarrow> state \<Rightarrow> state" where
  "console_error msg e s = s\<lparr>console := console s @ [(msg, e)]\<rparr>"

subsection \<open>The async arrow function (lines 19 to 40)\<close>

text \<open>How a stretch of the \<open>try\<close> block ends: at a \<open>return\<close>, at a throw, or at the next \<open>await\<close>.\<close>

datatype completion = Return jsval | Throw js_error | Suspend await_point

text \<open>
  Lines 27 to 33, entered when the promise of \<open>fetch\<close> settles: a rejection is thrown
  at the \<open>await\<close>; an OK response goes on to \<open>await response.json()\<close>; any other
  response removes the token and returns \<open>null\<close>.
\<close>

definition after_fetch :: "js_error + response \<Rightarrow> state \<Rightarrow> completion \<times> state" where
  "after_fetch r s =
     (case r of
        Inl e \<Rightarrow> (Throw e, s)
      | Inr resp \<Rightarrow>
          if ok resp then (Suspend AwaitJson, s)
          else (Return JNull, removeItem ''access_token'' s))"

text \<open>Lines 28 and 29, entered when the promise of \<open>response.json()\<close> settles.\<close>

definition after_json :: "js_error + jsval \<Rightarrow> state \<Rightarrow> completion \<times> state" where
  "after_json r s =
     (case r of
        Inl e \<Rightarrow> (Throw e, s)
      | Inr v \<Rightarrow> (let s' = s\<lparr>currentUser := v\<rparr> in (Return (currentUser s'), s')))"

definition settle :: "pid \<Rightarrow> pstate \<Rightarrow> state \<Rightarrow> state" where
  "settle p st s = s\<lparr>promises := (promises s)[p := st]\<rparr>"

text \<open>
  Lines 34 to 39 and the end of the async function: a throw of the \<open>try\<close> block is
  logged and becomes \<open>return null\<close>; on every way out \<open>finally\<close> sets
  \<open>fetchPromise\<close> to \<open>null\<close>; then the function's promise is fulfilled with the
  returned value. At an \<open>await\<close> nothing of this runs yet.
\<close>

definition catch_finally :: "pid \<Rightarrow> completion \<times> state \<Rightarrow> state" where
  "catch_finally p cs =
     (case cs of
        (Suspend a, s) \<Rightarrow> settle p (Awaiting a) s
      | (Return v, s) \<Rightarrow> settle p (Fulfilled v) (s\<lparr>fetchPromise := None\<rparr>)
      | (Throw e, s) \<Rightarrow>
          settle p (Fulfilled JNull)
            ((console_error ''Error fetching current user:'' e s)\<lparr>fetchPromise := None\<rparr>))"

subsection \<open>The exported functions\<close>

text \<open>
  \<open>getCurrentUser\<close>, lines 4 to 43. Line 5 tests the cached value for truthiness, not
  against \<open>null\<close>. Line 10 returns any promise \<open>fetchPromise\<close> holds. Line 15 stops
  on \<open>null\<close> (nothing stored) and on the empty string. Otherwise the arrow function
  is called: it runs up to \<open>await fetch(...)\<close>, so the request is sent, and returns
  its promise, a new one of the store, which line 19 assigns to \<open>fetchPromise\<close>.
\<close>

definition getCurrentUser :: "state \<Rightarrow> ret \<times> state" where
  "getCurrentUser s =
     (if truthy (currentUser s) then (Value (currentUser s), s)
      else
        case fetchPromise s of
          Some p \<Rightarrow> (Promise p, s)
        | None \<Rightarrow>
            (case getItem ''access_token'' s of
               None \<Rightarrow> (Value JNull, s)
             | Some token \<Rightarrow>
                 if token = [] then (Value JNull, s)
                 else
                   let p = length (promises s);
                       s1 = fetch ''/api/users/me''
                              [(''Authorization'', ''Bearer '' @ token)] s;
                       s2 = s1\<lparr>promises := promises s1 @ [Awaiting AwaitFetch]\<rparr>;
                       s3 = s2\<lparr>fetchPromise := Some p\<rparr>
                   in (Promise p, s3)))"

text \<open>
  The other four functions are plain: their result is returned as it is, \<open>undefined\<close>
  where the body has no \<open>return\<close>. The assignment to \<open>window.location.href\<close> is
  recorded in the state; the page goes on running until the browser navigates.
\<close>

definition logout :: "state \<Rightarrow> jsval \<times> state" where
  "logout s =
     (let s1 = removeItem ''access_token'' s;
          s2 = s1\<lparr>currentUser := JNull\<rparr>;
          s3 = s2\<lparr>href := ''/''\<rparr>
      in (JUndefined, s3))"

definition getToken :: "state \<Rightarrow> string option" where
  "getToken s = getItem ''access_token'' s"

definition setToken :: "string \<Rightarrow> state \<Rightarrow> jsval \<times> state" where
  "setToken token s = (JUndefined, setItem ''access_token'' token s)"

definition clearUserCache :: "state \<Rightarrow> jsval \<times> state" where
  "clearUserCache s = (JUndefined, s\<lparr>currentUser := JNull\<rparr>)"

subsection \<open>The event loop\<close>

text \<open>
  A step is a call of an exported function, or the settling of the promise that the
  arrow function \<open>p\<close> awaits. A settling for a promise that is not waiting for it
  does not happen; the step leaves the state as it is.
\<close>

datatype action =
    CallGetCurrentUser
  | CallLogout
  | CallGetToken
  | CallSetToken string
  | CallClearUserCache
  | FetchSettles pid "js_error + response"
  | JsonSettles pid "js_error + jsval"

definition awaits :: "state \<Rightarrow> pid \<Rightarrow> await_point \<Rightarrow> bool" where
  "awaits s p a = (p < length (promises s) \<and> promises s ! p = Awaiting a)"

fun step :: "state \<Rightarrow> action \<Rightarrow> state" where
  "step s CallGetCurrentUser = snd (getCurrentUser s)"
| "step s CallLogout = snd (logout s)"
| "step s CallGetToken = s"
| "step s (CallSetToken token) = snd (setToken token s)"
| "step s CallClearUserCache = snd (clearUserCache s)"
| "step s (FetchSettles p r) =
     (if awaits s p AwaitFetch then catch_finally p (after_fetch r s) else s)"
| "step s (JsonSettles p r) =
     (if awaits s p AwaitJson then catch_finally p (after_json r s) else s)"

fun run :: "state \<Rightarrow> action list \<Rightarrow> state" where
  "run s [] = s"
| "run s (a # as) = run (step s a) as"

text \<open>The arrow functions that have not finished: the identity fetches in flight.\<close>

definition in_flight :: "state \<Rightarrow> pid list" where
  "in_flight s = filter (\<lambda>p. is_pending (promises s ! p)) [0 ..< length (promises s)]"

text \<open>What the promise handed out by a call has settled to, if it has.\<close>

fun resolved :: "state \<Rightarrow> ret \<Rightarrow> jsval option" where
  "resolved s (Value v) = Some v"
| "resolved s (Promise p) =
     (if p < length (promises s)
      then (case promises s ! p of Fulfilled v \<Rightarrow> Some v | _ \<Rightarrow> None)
      else None)"

subsection \<open>The single-flight invariant\<close>

text \<open>
  What holds of the two module variables and the promise store in every state the
  module can get into: a promise of the store is unfinished only if \<open>fetchPromise\<close>
  is that promise, and while \<open>fetchPromise\<close> is set, it is an unfinished promise and
  no truthy user is cached.
\<close>

definition wf_state :: "state \<Rightarrow> bool" where
  "wf_state s =
     (case fetchPromise s of
        None \<Rightarrow> (\<forall>p < length (promises s). \<not> is_pending (promises s ! p))
      | Some q \<Rightarrow>
          q < length (promises s) \<and> is_pending (promises s ! q) \<and> \<not> truthy (currentUser s) \<and>
          (\<forall>p < length (promises s). is_pending (promises s ! p) \<longrightarrow> p = q))"

section \<open>Properties\<close>

subsection \<open>The steps, one by one\<close>

lemmas model_defs =
  initial_def getItem_def setItem_def removeItem_def fetch_def console_error_def
  after_fetch_def after_json_def settle_def catch_finally_def
  getCurrentUser_def logout_def getToken_def setToken_def clearUserCache_def
  awaits_def in_flight_def Let_def

lemma getCurrentUser_cached:
  "truthy (currentUser s) \<Longrightarrow> getCurrentUser s = (Value (currentUser s), s)"
  by (simp add: getCurrentUser_def)

lemma getCurrentUser_pending:
  "\<not> truthy (currentUser s) \<Longrightarrow> fetchPromise s = Some p \<Longrightarrow> getCurrentUser s = (Promise p, s)"
  by (simp add: getCurrentUser_def)

lemma getCurrentUser_no_token:
  "\<not> truthy (currentUser s) \<Longrightarrow> fetchPromise s = None \<Longrightarrow>
   getItem ''access_token'' s = None \<or> getItem ''access_token'' s = Some [] \<Longrightarrow>
   getCurrentUser s = (Value JNull, s)"
  by (auto simp: getCurrentUser_def)

lemma getCurrentUser_fetches:
  "\<not> truthy (currentUser s) \<Longrightarrow> fetchPromise s = None \<Longrightarrow>
   getItem ''access_token'' s = Some token \<Longrightarrow> token \<noteq> [] \<Longrightarrow>
   getCurrentUser s =
     (Promise (length (promises s)),
      s\<lparr>requests := requests s @
            [\<lparr>url = ''/api/users/me'', headers = [(''Authorization'', ''Bearer '' @ token)]\<rparr>],
        promises := promises s @ [Awaiting AwaitFetch],
        fetchPromise := Some (length (promises s))\<rparr>)"
  by (simp add: getCurrentUser_def fetch_def Let_def)

lemma step_fetch_fault:
  "awaits s p AwaitFetch \<Longrightarrow>
   step s (FetchSettles p (Inl e)) =
     s\<lparr>console := console s @ [(''Error fetching current user:'', e)],
       fetchPromise := None,
       promises := (promises s)[p := Fulfilled JNull]\<rparr>"
  by (simp add: after_fetch_def catch_finally_def console_error_def settle_def)

lemma step_fetch_not_ok:
  "awaits s p AwaitFetch \<Longrightarrow> \<not> ok resp \<Longrightarrow>
   step s (FetchSettles p (Inr resp)) =
     s\<lparr>localStorage := (localStorage s)(''access_token'' := None),
       fetchPromise := None,
       promises := (promises s)[p := Fulfilled JNull]\<rparr>"
  by (simp add: after_fetch_def catch_finally_def removeItem_def settle_def)

lemma step_fetch_ok:
  "awaits s p AwaitFetch \<Longrightarrow> ok resp \<Longrightarrow>
   step s (FetchSettles p (Inr resp)) = s\<lparr>promises := (promises s)[p := Awaiting AwaitJson]\<rparr>"
  by (simp add: after_fetch_def catch_finally_def settle_def)

lemma step_json_fault:
  "awaits s p AwaitJson \<Longrightarrow>
   step s (JsonSettles p (Inl e)) =
     s\<lparr>console := console s @ [(''Error fetching current user:'', e)],
       fetchPromise := None,
       promises := (promises s)[p := Fulfilled JNull]\<rparr>"
  by (simp add: after_json_def catch_finally_def console_error_def settle_def)

lemma step_json_value:
  "awaits s p AwaitJson \<Longrightarrow>
   step s (JsonSettles p (Inr v)) =
     s\<lparr>currentUser := v, fetchPromise := None, promises := (promises s)[p := Fulfilled v]\<rparr>"
  by (simp add: after_json_def catch_finally_def settle_def Let_def)

lemma awaits_after_fetch_ok:
  "awaits s p AwaitFetch \<Longrightarrow> ok resp \<Longrightarrow> awaits (step s (FetchSettles p (Inr resp))) p AwaitJson"
  by (simp add: awaits_def after_fetch_def catch_finally_def settle_def)

lemma run_two: "run s [a, b] = step (step s a) b"
  by simp

lemma awaits_fresh:
  "awaits (s\<lparr>requests := rs, promises := promises s @ [Awaiting AwaitFetch], fetchPromise := m\<rparr>)
     (length (promises s)) AwaitFetch"
  by (simp add: awaits_def)

lemma ok_json_run:
  assumes "awaits s p AwaitFetch" and "ok resp"
  shows "run s [FetchSettles p (Inr resp), JsonSettles p (Inr v)] =
    s\<lparr>currentUser := v, fetchPromise := None, promises := (promises s)[p := Fulfilled v]\<rparr>"
proof -
  have a: "step s (FetchSettles p (Inr resp)) = s\<lparr>promises := (promises s)[p := Awaiting AwaitJson]\<rparr>"
    using assms by (rule step_fetch_ok)
  have b: "awaits (s\<lparr>promises := (promises s)[p := Awaiting AwaitJson]\<rparr>) p AwaitJson"
    using assms(1) by (simp add: awaits_def)
  show ?thesis
    unfolding run_two a using step_json_value [OF b, of v] by simp
qed

lemma getCurrentUser_never_stale:
  assumes "fetchPromise s = None" and "p < length (promises s)"
  shows "fst (getCurrentUser s) \<noteq> Promise p"
  using assms by (auto simp: getCurrentUser_def fetch_def Let_def split: option.splits)

subsection \<open>The invariant is kept\<close>

lemma wf_initial: "wf_state (initial ls loc)"
  by (simp add: wf_state_def initial_def)

lemma wf_logout: "wf_state s \<Longrightarrow> wf_state (snd (logout s))"
  by (simp add: wf_state_def logout_def removeItem_def Let_def split: option.splits)

lemma wf_setToken: "wf_state s \<Longrightarrow> wf_state (snd (setToken t s))"
  by (simp add: wf_state_def setToken_def setItem_def split: option.splits)

lemma wf_clearUserCache: "wf_state s \<Longrightarrow> wf_state (snd (clearUserCache s))"
  by (simp add: wf_state_def clearUserCache_def split: option.splits)

lemma wf_getCurrentUser: "wf_state s \<Longrightarrow> wf_state (snd (getCurrentUser s))"
  by (auto simp: wf_state_def getCurrentUser_def getItem_def fetch_def Let_def nth_append
      split: option.splits)

lemma wf_fetch_settles:
  "wf_state s \<Longrightarrow> awaits s p AwaitFetch \<Longrightarrow> wf_state (catch_finally p (after_fetch r s))"
  by (auto simp: wf_state_def awaits_def catch_finally_def after_fetch_def settle_def
      removeItem_def console_error_def nth_list_update split: sum.splits option.splits)
    (metis is_pending.simps(1))+

lemma wf_json_settles:
  "wf_state s \<Longrightarrow> awaits s p AwaitJson \<Longrightarrow> wf_state (catch_finally p (after_json r s))"
  by (auto simp: wf_state_def awaits_def catch_finally_def after_json_def settle_def
      console_error_def nth_list_update Let_def split: sum.splits option.splits)
    (metis is_pending.simps(1))+

lemma wf_step: "wf_state s \<Longrightarrow> wf_state (step s a)"
  by (cases a)
    (simp_all add: wf_getCurrentUser wf_logout wf_setToken wf_clearUserCache
      wf_fetch_settles wf_json_settles)

lemma wf_run: "wf_state s \<Longrightarrow> wf_state (run s acts)"
  by (induction acts arbitrary: s) (simp_all add: wf_step)

lemma wf_reachable: "wf_state (run (initial ls loc) acts)"
  by (simp add: wf_run wf_initial)

lemma in_flight_iff:
  "p \<in> set (in_flight s) \<longleftrightarrow> p < length (promises s) \<and> is_pending (promises s ! p)"
  by (auto simp: in_flight_def)

lemma wf_in_flight_marker:
  "wf_state s \<Longrightarrow> p \<in> set (in_flight s) \<Longrightarrow> fetchPromise s = Some p \<and> \<not> truthy (currentUser s)"
  by (auto simp: wf_state_def in_flight_iff split: option.splits)

lemma wf_in_flight_le_1: "wf_state s \<Longrightarrow> length (in_flight s) \<le> 1"
proof -
  assume a: "wf_state s"
  have d: "distinct (in_flight s)" by (simp add: in_flight_def)
  have "set (in_flight s) \<subseteq> (case fetchPromise s of None \<Rightarrow> {} | Some p \<Rightarrow> {p})"
  proof (cases "fetchPromise s")
    case None
    then show ?thesis using wf_in_flight_marker [OF a] by (cases "in_flight s") auto
  next
    case (Some q)
    then show ?thesis using wf_in_flight_marker [OF a] by auto
  qed
  then have "card (set (in_flight s)) \<le> card (case fetchPromise s of None \<Rightarrow> {} | Some p \<Rightarrow> {p})"
    by (intro card_mono) (auto split: option.splits)
  also have "\<dots> \<le> 1" by (simp split: option.splits)
  finally show ?thesis using d by (simp add: distinct_card)
qed

lemma getCurrentUser_requests_cases:
  "requests (snd (getCurrentUser s)) \<noteq> requests s \<Longrightarrow>
   \<exists>token. \<not> truthy (currentUser s) \<and> fetchPromise s = None \<and>
     getItem ''access_token'' s = Some token \<and> token \<noteq> []"
  by (auto simp: getCurrentUser_def split: option.splits if_splits)

subsection \<open>Request coalescing\<close>

text \<open>
  C1. In every state reached from a freshly loaded module by any calls and any
  settlings, at most one identity fetch is in flight. A call of \<open>getCurrentUser\<close>
  made while a fetch is in flight hands out that fetch's promise and changes
  nothing, so it sends no request. When a call does send a request, a second call
  made before anything settles hands out the same promise as the first, exactly one
  request has been sent by the pair, and the one fetch in flight is the promise both
  calls handed out. (Each caller holds a promise object of its own, as every call of
  an \<open>async\<close> function makes one; all of them follow the one promise of the fetch.)
\<close>

theorem single_flight:
  assumes "s = run (initial ls loc) acts"
  shows "length (in_flight s) \<le> 1 \<and>
    (\<forall>p \<in> set (in_flight s). getCurrentUser s = (Promise p, s)) \<and>
    (requests (snd (getCurrentUser s)) \<noteq> requests s \<longrightarrow>
       getCurrentUser (snd (getCurrentUser s)) = (fst (getCurrentUser s), snd (getCurrentUser s)) \<and>
       fst (getCurrentUser s) = Promise (length (promises s)) \<and>
       in_flight (snd (getCurrentUser s)) = [length (promises s)] \<and>
       length (requests (snd (getCurrentUser (snd (getCurrentUser s))))) = length (requests s) + 1)"
proof -
  have wf: "wf_state s" using assms by (simp add: wf_reachable)
  have a: "length (in_flight s) \<le> 1" using wf by (rule wf_in_flight_le_1)
  have b: "\<forall>p \<in> set (in_flight s). getCurrentUser s = (Promise p, s)"
    using wf_in_flight_marker [OF wf] by (auto simp: getCurrentUser_pending)
  have c: "getCurrentUser (snd (getCurrentUser s)) = (fst (getCurrentUser s), snd (getCurrentUser s)) \<and>
       fst (getCurrentUser s) = Promise (length (promises s)) \<and>
       in_flight (snd (getCurrentUser s)) = [length (promises s)] \<and>
       length (requests (snd (getCurrentUser (snd (getCurrentUser s))))) = length (requests s) + 1"
    if r: "requests (snd (getCurrentUser s)) \<noteq> requests s"
  proof -
    from getCurrentUser_requests_cases [OF r] obtain token where
      t: "\<not> truthy (currentUser s)" "fetchPromise s = None"
         "getItem ''access_token'' s = Some token" "token \<noteq> []" by blast
    note g = getCurrentUser_fetches [OF t]
    let ?s1 = "snd (getCurrentUser s)"
    have g2: "getCurrentUser ?s1 = (Promise (length (promises s)), ?s1)"
      by (rule getCurrentUser_pending) (simp_all add: g t)
    have wf1: "wf_state ?s1" using wf by (rule wf_getCurrentUser)
    have mem: "length (promises s) \<in> set (in_flight ?s1)"
      by (simp add: in_flight_iff g nth_append)
    have "length (in_flight ?s1) \<le> 1" using wf1 by (rule wf_in_flight_le_1)
    with mem have fl: "in_flight ?s1 = [length (promises s)]"
      by (cases "in_flight ?s1") auto
    show ?thesis using g2 fl by (simp add: g)
  qed
  show ?thesis using a b c by blast
qed

theorem single_flight_witness:
  "length (in_flight (run (initial Map.empty ''/home'') [CallSetToken ''t'', CallGetCurrentUser])) \<le> 1 \<and>
   in_flight (run (initial Map.empty ''/home'') [CallSetToken ''t'', CallGetCurrentUser]) = [0] \<and>
   fst (getCurrentUser (run (initial Map.empty ''/home'') [CallSetToken ''t'', CallGetCurrentUser])) = Promise 0 \<and>
   snd (getCurrentUser (run (initial Map.empty ''/home'') [CallSetToken ''t'', CallGetCurrentUser])) =
     run (initial Map.empty ''/home'') [CallSetToken ''t'', CallGetCurrentUser] \<and>
   requests (snd (getCurrentUser (run (initial Map.empty ''/home'') [CallSetToken ''t'']))) \<noteq>
     requests (run (initial Map.empty ''/home'') [CallSetToken ''t'']) \<and>
   fst (getCurrentUser (snd (getCurrentUser (run (initial Map.empty ''/home'') [CallSetToken ''t''])))) =
     fst (getCurrentUser (run (initial Map.empty ''/home'') [CallSetToken ''t''])) \<and>
   length (requests (snd (getCurrentUser (snd (getCurrentUser
     (run (initial Map.empty ''/home'') [CallSetToken ''t'']))))))  = 1"
  using single_flight [OF refl, of Map.empty "''/home''" "[CallSetToken ''t'', CallGetCurrentUser]"]
    single_flight [OF refl, of Map.empty "''/home''" "[CallSetToken ''t'']"]
  by (simp add: model_defs)

subsection \<open>The outcomes of the fetch\<close>

text \<open>
  C2. When the fetch started by \<open>getCurrentUser\<close> settles with a response that is not
  OK, the entry \<open>access_token\<close> is removed from the storage (and nothing else of the
  storage changes), the promise the call handed out is fulfilled with \<open>null\<close>, and
  no user is cached: \<open>currentUser\<close> is what it was, which is not a truthy value.
\<close>

theorem non_ok_clears_token:
  assumes "s = run (initial ls loc) acts"
    and "awaits s p AwaitFetch"
    and "\<not> ok resp"
    and "s' = step s (FetchSettles p (Inr resp))"
  shows "localStorage s' = (localStorage s)(''access_token'' := None) \<and>
    getToken s' = None \<and>
    promises s' ! p = Fulfilled JNull \<and>
    resolved s' (Promise p) = Some JNull \<and>
    currentUser s' = currentUser s \<and> \<not> truthy (currentUser s')"
proof -
  have wf: "wf_state s" using assms(1) by (simp add: wf_reachable)
  have lt: "p < length (promises s)" using assms(2) by (simp add: awaits_def)
  then have "p \<in> set (in_flight s)" using assms(2) by (simp add: in_flight_iff awaits_def)
  then have nt: "\<not> truthy (currentUser s)" using wf_in_flight_marker [OF wf] by blast
  have eq: "s' = s\<lparr>localStorage := (localStorage s)(''access_token'' := None),
       fetchPromise := None,
       promises := (promises s)[p := Fulfilled JNull]\<rparr>"
    unfolding assms(4) using assms(2,3) by (rule step_fetch_not_ok)
  show ?thesis using nt lt by (simp add: eq getToken_def getItem_def)
qed

theorem non_ok_clears_token_witness:
  "getToken (run (initial Map.empty ''/home'') [CallSetToken ''t'', CallGetCurrentUser]) = Some ''t'' \<and>
   awaits (run (initial Map.empty ''/home'') [CallSetToken ''t'', CallGetCurrentUser]) 0 AwaitFetch \<and>
   \<not> ok \<lparr>ok = False\<rparr> \<and>
   getToken (step (run (initial Map.empty ''/home'') [CallSetToken ''t'', CallGetCurrentUser])
       (FetchSettles 0 (Inr \<lparr>ok = False\<rparr>))) = None \<and>
   resolved (step (run (initial Map.empty ''/home'') [CallSetToken ''t'', CallGetCurrentUser])
       (FetchSettles 0 (Inr \<lparr>ok = False\<rparr>))) (Promise 0) = Some JNull \<and>
   currentUser (step (run (initial Map.empty ''/home'') [CallSetToken ''t'', CallGetCurrentUser])
       (FetchSettles 0 (Inr \<lparr>ok = False\<rparr>))) = JNull"
  using non_ok_clears_token [OF refl _ _ refl, where p = 0 and ls = Map.empty and loc = "''/home''"
      and acts = "[CallSetToken ''t'', CallGetCurrentUser]" and resp = "\<lparr>ok = False\<rparr>"]
  by (simp add: model_defs)

text \<open>
  C3. When the promise of \<open>fetch\<close> rejects, or that of \<open>response.json()\<close> does, the
  fault is logged with \<open>console.error\<close>, the promise the call handed out is fulfilled
  with \<open>null\<close> (it is not rejected: the caller sees no exception), and the storage,
  so the token, is left as it was.
\<close>

theorem fault_logged_token_kept:
  assumes "(awaits s p AwaitFetch \<and> s' = step s (FetchSettles p (Inl e))) \<or>
           (awaits s p AwaitJson \<and> s' = step s (JsonSettles p (Inl e)))"
  shows "console s' = console s @ [(''Error fetching current user:'', e)] \<and>
    promises s' ! p = Fulfilled JNull \<and>
    resolved s' (Promise p) = Some JNull \<and>
    localStorage s' = localStorage s \<and>
    getToken s' = getToken s \<and>
    currentUser s' = currentUser s"
proof -
  have lt: "p < length (promises s)" using assms by (auto simp: awaits_def)
  have eq: "s' = s\<lparr>console := console s @ [(''Error fetching current user:'', e)],
       fetchPromise := None,
       promises := (promises s)[p := Fulfilled JNull]\<rparr>"
    using assms step_fetch_fault [of s p e] step_json_fault [of s p e] by blast
  show ?thesis using lt by (simp add: eq getToken_def getItem_def)
qed

theorem fault_logged_token_kept_witness:
  "awaits (run (initial Map.empty ''/home'') [CallSetToken ''t'', CallGetCurrentUser]) 0 AwaitFetch \<and>
   console (step (run (initial Map.empty ''/home'') [CallSetToken ''t'', CallGetCurrentUser])
       (FetchSettles 0 (Inl ''TypeError: Failed to fetch''))) =
     [(''Error fetching current user:'', ''TypeError: Failed to fetch'')] \<and>
   resolved (step (run (initial Map.empty ''/home'') [CallSetToken ''t'', CallGetCurrentUser])
       (FetchSettles 0 (Inl ''TypeError: Failed to fetch''))) (Promise 0) = Some JNull \<and>
   getToken (step (run (initial Map.empty ''/home'') [CallSetToken ''t'', CallGetCurrentUser])
       (FetchSettles 0 (Inl ''TypeError: Failed to fetch''))) = Some ''t'' \<and>
   awaits (run (initial Map.empty ''/home'')
       [CallSetToken ''t'', CallGetCurrentUser, FetchSettles 0 (Inr \<lparr>ok = True\<rparr>)]) 0 AwaitJson \<and>
   console (step (run (initial Map.empty ''/home'')
       [CallSetToken ''t'', CallGetCurrentUser, FetchSettles 0 (Inr \<lparr>ok = True\<rparr>)])
       (JsonSettles 0 (Inl ''SyntaxError''))) = [(''Error fetching current user:'', ''SyntaxError'')] \<and>
   resolved (step (run (initial Map.empty ''/home'')
       [CallSetToken ''t'', CallGetCurrentUser, FetchSettles 0 (Inr \<lparr>ok = True\<rparr>)])
       (JsonSettles 0 (Inl ''SyntaxError''))) (Promise 0) = Some JNull \<and>
   getToken (step (run (initial Map.empty ''/home'')
       [CallSetToken ''t'', CallGetCurrentUser, FetchSettles 0 (Inr \<lparr>ok = True\<rparr>)])
       (JsonSettles 0 (Inl ''SyntaxError''))) = Some ''t''"
  using
    fault_logged_token_kept [of
      "run (initial Map.empty ''/home'') [CallSetToken ''t'', CallGetCurrentUser]" 0
      "step (run (initial Map.empty ''/home'') [CallSetToken ''t'', CallGetCurrentUser])
         (FetchSettles 0 (Inl ''TypeError: Failed to fetch''))" "''TypeError: Failed to fetch''"]
    fault_logged_token_kept [of
      "run (initial Map.empty ''/home'')
         [CallSetToken ''t'', CallGetCurrentUser, FetchSettles 0 (Inr \<lparr>ok = True\<rparr>)]" 0
      "step (run (initial Map.empty ''/home'')
         [CallSetToken ''t'', CallGetCurrentUser, FetchSettles 0 (Inr \<lparr>ok = True\<rparr>)])
         (JsonSettles 0 (Inl ''SyntaxError''))" "''SyntaxError''"]
  by (simp add: model_defs)

text \<open>
  C4. With no user cached, no fetch in flight and a token stored, the first call
  sends one request carrying the token and hands out the new promise; once the fetch
  has settled with an OK response and its body has parsed to a JSON object, that
  promise is fulfilled with the object and the object is cached; the second call
  returns the object itself and changes nothing, so it sends no request.
\<close>

theorem ok_response_cached:
  assumes "\<not> truthy (currentUser s)"
    and "fetchPromise s = None"
    and "getItem ''access_token'' s = Some token"
    and "token \<noteq> []"
    and "ok resp"
    and "s1 = snd (getCurrentUser s)"
    and "s2 = run s1 [FetchSettles (length (promises s)) (Inr resp),
                      JsonSettles (length (promises s)) (Inr (JObj u))]"
  shows "fst (getCurrentUser s) = Promise (length (promises s)) \<and>
    requests s1 = requests s @
      [\<lparr>url = ''/api/users/me'', headers = [(''Authorization'', ''Bearer '' @ token)]\<rparr>] \<and>
    resolved s2 (Promise (length (promises s))) = Some (JObj u) \<and>
    currentUser s2 = JObj u \<and>
    getCurrentUser s2 = (Value (JObj u), s2) \<and>
    requests s2 = requests s1"
proof -
  note g = getCurrentUser_fetches [OF assms(1-4)]
  have s1: "s1 = s\<lparr>requests := requests s @
            [\<lparr>url = ''/api/users/me'', headers = [(''Authorization'', ''Bearer '' @ token)]\<rparr>],
        promises := promises s @ [Awaiting AwaitFetch],
        fetchPromise := Some (length (promises s))\<rparr>"
    by (simp add: assms(6) g)
  have aw: "awaits s1 (length (promises s)) AwaitFetch"
    unfolding s1 by (rule awaits_fresh)
  have s2: "s2 = s1\<lparr>currentUser := JObj u, fetchPromise := None,
      promises := (promises s1)[length (promises s) := Fulfilled (JObj u)]\<rparr>"
    unfolding assms(7) using aw assms(5) by (rule ok_json_run)
  have c: "getCurrentUser s2 = (Value (JObj u), s2)"
    using getCurrentUser_cached [of s2] by (simp add: s2)
  show ?thesis using c by (simp add: g) (simp add: s2 s1)
qed

theorem ok_response_cached_witness:
  "getItem ''access_token'' (initial [''access_token'' \<mapsto> ''t''] ''/home'') = Some ''t'' \<and>
   fst (getCurrentUser (initial [''access_token'' \<mapsto> ''t''] ''/home'')) = Promise 0 \<and>
   requests (snd (getCurrentUser (initial [''access_token'' \<mapsto> ''t''] ''/home''))) =
     [\<lparr>url = ''/api/users/me'', headers = [(''Authorization'', ''Bearer t'')]\<rparr>] \<and>
   resolved (run (snd (getCurrentUser (initial [''access_token'' \<mapsto> ''t''] ''/home'')))
       [FetchSettles 0 (Inr \<lparr>ok = True\<rparr>),
        JsonSettles 0 (Inr (JObj [(''id'', JNum 1), (''name'', JStr ''A'')]))]) (Promise 0) =
     Some (JObj [(''id'', JNum 1), (''name'', JStr ''A'')]) \<and>
   fst (getCurrentUser (run (snd (getCurrentUser (initial [''access_token'' \<mapsto> ''t''] ''/home'')))
       [FetchSettles 0 (Inr \<lparr>ok = True\<rparr>),
        JsonSettles 0 (Inr (JObj [(''id'', JNum 1), (''name'', JStr ''A'')]))])) =
     Value (JObj [(''id'', JNum 1), (''name'', JStr ''A'')]) \<and>
   length (requests (snd (getCurrentUser (run (snd (getCurrentUser (initial [''access_token'' \<mapsto> ''t''] ''/home'')))
       [FetchSettles 0 (Inr \<lparr>ok = True\<rparr>),
        JsonSettles 0 (Inr (JObj [(''id'', JNum 1), (''name'', JStr ''A'')]))])))) = 1"
  using ok_response_cached [OF _ _ _ _ _ refl refl,
      where s = "initial [''access_token'' \<mapsto> ''t''] ''/home''" and token = "''t''"
        and resp = "\<lparr>ok = True\<rparr>" and u = "[(''id'', JNum 1), (''name'', JStr ''A'')]"]
  by (simp add: model_defs)

subsection \<open>Calls that send nothing\<close>

text \<open>
  C5. With no user cached, no fetch in flight and nothing stored under
  \<open>access_token\<close>, \<open>getCurrentUser\<close> returns \<open>null\<close> at once and changes nothing: no
  request is sent.
\<close>

theorem no_token_no_request:
  assumes "\<not> truthy (currentUser s)"
    and "fetchPromise s = None"
    and "getItem ''access_token'' s = None"
  shows "getCurrentUser s = (Value JNull, s) \<and>
    resolved (snd (getCurrentUser s)) (fst (getCurrentUser s)) = Some JNull \<and>
    requests (snd (getCurrentUser s)) = requests s"
  using assms by (simp add: getCurrentUser_no_token)

theorem no_token_no_request_witness:
  "\<not> truthy (currentUser (initial Map.empty ''/home'')) \<and>
   fetchPromise (initial Map.empty ''/home'') = None \<and>
   getItem ''access_token'' (initial Map.empty ''/home'') = None \<and>
   getCurrentUser (initial Map.empty ''/home'') = (Value JNull, initial Map.empty ''/home'') \<and>
   requests (snd (getCurrentUser (initial Map.empty ''/home''))) = []"
  using no_token_no_request [of "initial Map.empty ''/home''"]
  by (simp add: model_defs)

subsection \<open>Logging out and clearing the cache\<close>

text \<open>
  C7. \<open>logout\<close> removes the entry \<open>access_token\<close> from the storage, sets
  \<open>currentUser\<close> to \<open>null\<close>, sets the location to \<open>/\<close>, changes nothing else, and
  returns no value (\<open>undefined\<close>).
\<close>

theorem logout_effect:
  "logout s =
     (JUndefined,
      s\<lparr>localStorage := (localStorage s)(''access_token'' := None),
        currentUser := JNull, href := ''/''\<rparr>) \<and>
   fst (logout s) = JUndefined \<and>
   getToken (snd (logout s)) = None \<and>
   currentUser (snd (logout s)) = JNull \<and>
   href (snd (logout s)) = ''/''"
  by (simp add: logout_def removeItem_def getToken_def getItem_def Let_def)

subsection \<open>A falsy body\<close>

text \<open>
  C9. Take the run of C4 with a body that parses to a falsy value (\<open>null\<close>, \<open>false\<close>,
  \<open>0\<close>, the empty string). The promise the first call handed out is fulfilled with
  that value and the value is stored in \<open>currentUser\<close>, but the next call does not
  return it: it sends a second request and hands out a new promise.
\<close>

theorem falsy_body_not_served_from_cache:
  assumes "\<not> truthy (currentUser s)"
    and "fetchPromise s = None"
    and "getItem ''access_token'' s = Some token"
    and "token \<noteq> []"
    and "ok resp"
    and "\<not> truthy v"
    and "s1 = snd (getCurrentUser s)"
    and "s2 = run s1 [FetchSettles (length (promises s)) (Inr resp),
                      JsonSettles (length (promises s)) (Inr v)]"
  shows "resolved s2 (fst (getCurrentUser s)) = Some v \<and>
    currentUser s2 = v \<and>
    fst (getCurrentUser s2) = Promise (Suc (length (promises s))) \<and>
    requests (snd (getCurrentUser s2)) = requests s2 @
      [\<lparr>url = ''/api/users/me'', headers = [(''Authorization'', ''Bearer '' @ token)]\<rparr>] \<and>
    length (requests (snd (getCurrentUser s2))) = length (requests s) + 2"
proof -
  note g = getCurrentUser_fetches [OF assms(1-4)]
  have s1: "s1 = s\<lparr>requests := requests s @
            [\<lparr>url = ''/api/users/me'', headers = [(''Authorization'', ''Bearer '' @ token)]\<rparr>],
        promises := promises s @ [Awaiting AwaitFetch],
        fetchPromise := Some (length (promises s))\<rparr>"
    by (simp add: assms(7) g)
  have aw: "awaits s1 (length (promises s)) AwaitFetch"
    unfolding s1 by (rule awaits_fresh)
  have s2: "s2 = s1\<lparr>currentUser := v, fetchPromise := None,
      promises := (promises s1)[length (promises s) := Fulfilled v]\<rparr>"
    unfolding assms(8) using aw assms(5) by (rule ok_json_run)
  have pre: "\<not> truthy (currentUser s2)" "fetchPromise s2 = None"
    "getItem ''access_token'' s2 = Some token"
    using assms(3,6) by (simp_all add: s2 s1 getItem_def)
  note g2 = getCurrentUser_fetches [OF pre assms(4)]
  show ?thesis by (simp add: g g2) (simp add: s2 s1)
qed

theorem falsy_body_not_served_from_cache_witness:
  "\<not> truthy JNull \<and>
   resolved (run (snd (getCurrentUser (initial [''access_token'' \<mapsto> ''t''] ''/home'')))
       [FetchSettles 0 (Inr \<lparr>ok = True\<rparr>), JsonSettles 0 (Inr JNull)]) (Promise 0) = Some JNull \<and>
   currentUser (run (snd (getCurrentUser (initial [''access_token'' \<mapsto> ''t''] ''/home'')))
       [FetchSettles 0 (Inr \<lparr>ok = True\<rparr>), JsonSettles 0 (Inr JNull)]) = JNull \<and>
   fst (getCurrentUser (run (snd (getCurrentUser (initial [''access_token'' \<mapsto> ''t''] ''/home'')))
       [FetchSettles 0 (Inr \<lparr>ok = True\<rparr>), JsonSettles 0 (Inr JNull)])) = Promise 1 \<and>
   length (requests (snd (getCurrentUser (run (snd (getCurrentUser (initial [''access_token'' \<mapsto> ''t''] ''/home'')))
       [FetchSettles 0 (Inr \<lparr>ok = True\<rparr>), JsonSettles 0 (Inr JNull)])))) = 2"
  using falsy_body_not_served_from_cache [OF _ _ _ _ _ _ refl refl,
      where s = "initial [''access_token'' \<mapsto> ''t''] ''/home''" and token = "''t''"
        and resp = "\<lparr>ok = True\<rparr>" and v = JNull]
  by (simp add: model_defs)

subsection \<open>After the fetch has settled\<close>

text \<open>
  C6, as the code has it. Whatever the outcome of a fetch in flight (a rejection, a
  response that is not OK, or an OK response whose body then parses or fails to),
  \<open>fetchPromise\<close> is \<open>null\<close> once the arrow function has finished and its promise is
  settled, and no later call hands that settled promise out. A later call with no
  truthy user cached sends a new request when a non-empty token is stored, and
  returns \<open>null\<close> with the state unchanged when nothing is stored under
  \<open>access_token\<close>.
\<close>

theorem marker_cleared_when_settled:
  assumes "awaits s p AwaitFetch"
    and "acts = [FetchSettles p (Inl e)] \<or>
         acts = [FetchSettles p (Inr \<lparr>ok = False\<rparr>)] \<or>
         acts = [FetchSettles p (Inr \<lparr>ok = True\<rparr>), JsonSettles p r]"
    and "s' = run s acts"
  shows "fetchPromise s' = None \<and>
    p < length (promises s') \<and> \<not> is_pending (promises s' ! p) \<and>
    fst (getCurrentUser s') \<noteq> Promise p \<and>
    (\<not> truthy (currentUser s') \<and> getItem ''access_token'' s' = Some token \<and> token \<noteq> [] \<longrightarrow>
       fst (getCurrentUser s') = Promise (length (promises s')) \<and>
       requests (snd (getCurrentUser s')) = requests s' @
         [\<lparr>url = ''/api/users/me'', headers = [(''Authorization'', ''Bearer '' @ token)]\<rparr>]) \<and>
    (\<not> truthy (currentUser s') \<and> getItem ''access_token'' s' = None \<longrightarrow>
       getCurrentUser s' = (Value JNull, s'))"
proof -
  have lt: "p < length (promises s)" using assms(1) by (simp add: awaits_def)
  have aw: "awaits (s\<lparr>promises := (promises s)[p := Awaiting AwaitJson]\<rparr>) p AwaitJson"
    using assms(1) by (simp add: awaits_def)
  have ok: "step s (FetchSettles p (Inr \<lparr>ok = True\<rparr>)) =
      s\<lparr>promises := (promises s)[p := Awaiting AwaitJson]\<rparr>"
    using assms(1) by (rule step_fetch_ok) simp
  have settled: "fetchPromise s' = None \<and> p < length (promises s') \<and> \<not> is_pending (promises s' ! p)"
    using assms(2)
  proof (elim disjE)
    assume "acts = [FetchSettles p (Inl e)]"
    then have "s' = step s (FetchSettles p (Inl e))" using assms(3) by simp
    then show ?thesis using lt by (simp only: step_fetch_fault [OF assms(1)]) simp
  next
    assume "acts = [FetchSettles p (Inr \<lparr>ok = False\<rparr>)]"
    then have "s' = step s (FetchSettles p (Inr \<lparr>ok = False\<rparr>))" using assms(3) by simp
    moreover have "step s (FetchSettles p (Inr \<lparr>ok = False\<rparr>)) =
        s\<lparr>localStorage := (localStorage s)(''access_token'' := None),
          fetchPromise := None,
          promises := (promises s)[p := Fulfilled JNull]\<rparr>"
      using assms(1) by (rule step_fetch_not_ok) simp
    ultimately show ?thesis using lt by simp
  next
    assume "acts = [FetchSettles p (Inr \<lparr>ok = True\<rparr>), JsonSettles p r]"
    then have s': "s' = step (s\<lparr>promises := (promises s)[p := Awaiting AwaitJson]\<rparr>) (JsonSettles p r)"
      using assms(3) by (simp only: run_two ok)
    show ?thesis
    proof (cases r)
      case (Inl e')
      show ?thesis using lt unfolding s' Inl by (simp only: step_json_fault [OF aw]) simp
    next
      case (Inr v)
      show ?thesis using lt unfolding s' Inr by (simp only: step_json_value [OF aw]) simp
    qed
  qed
  then have fresh: "fst (getCurrentUser s') \<noteq> Promise p"
    by (simp add: getCurrentUser_never_stale)
  have again: "fst (getCurrentUser s') = Promise (length (promises s')) \<and>
       requests (snd (getCurrentUser s')) = requests s' @
         [\<lparr>url = ''/api/users/me'', headers = [(''Authorization'', ''Bearer '' @ token)]\<rparr>]"
    if "\<not> truthy (currentUser s')" "getItem ''access_token'' s' = Some token" "token \<noteq> []"
    using getCurrentUser_fetches [OF that(1) _ that(2,3)] settled by simp
  have none: "getCurrentUser s' = (Value JNull, s')"
    if "\<not> truthy (currentUser s')" "getItem ''access_token'' s' = None"
    using getCurrentUser_no_token [of s'] that settled by simp
  show ?thesis using settled fresh again none by blast
qed

theorem marker_cleared_when_settled_witness:
  "awaits (run (initial [''access_token'' \<mapsto> ''t''] ''/home'') [CallGetCurrentUser]) 0 AwaitFetch \<and>
   fetchPromise (run (initial [''access_token'' \<mapsto> ''t''] ''/home'')
       [CallGetCurrentUser, FetchSettles 0 (Inl ''TypeError'')]) = None \<and>
   \<not> truthy (currentUser (run (initial [''access_token'' \<mapsto> ''t''] ''/home'')
       [CallGetCurrentUser, FetchSettles 0 (Inl ''TypeError'')])) \<and>
   getItem ''access_token'' (run (initial [''access_token'' \<mapsto> ''t''] ''/home'')
       [CallGetCurrentUser, FetchSettles 0 (Inl ''TypeError'')]) = Some ''t'' \<and>
   fst (getCurrentUser (run (initial [''access_token'' \<mapsto> ''t''] ''/home'')
       [CallGetCurrentUser, FetchSettles 0 (Inl ''TypeError'')])) = Promise 1 \<and>
   length (requests (snd (getCurrentUser (run (initial [''access_token'' \<mapsto> ''t''] ''/home'')
       [CallGetCurrentUser, FetchSettles 0 (Inl ''TypeError'')])))) = 2 \<and>
   fetchPromise (run (initial [''access_token'' \<mapsto> ''t''] ''/home'')
       [CallGetCurrentUser, FetchSettles 0 (Inr \<lparr>ok = False\<rparr>)]) = None \<and>
   getItem ''access_token'' (run (initial [''access_token'' \<mapsto> ''t''] ''/home'')
       [CallGetCurrentUser, FetchSettles 0 (Inr \<lparr>ok = False\<rparr>)]) = None \<and>
   fst (getCurrentUser (run (initial [''access_token'' \<mapsto> ''t''] ''/home'')
       [CallGetCurrentUser, FetchSettles 0 (Inr \<lparr>ok = False\<rparr>)])) = Value JNull \<and>
   fetchPromise (run (initial [''access_token'' \<mapsto> ''t''] ''/home'')
       [CallGetCurrentUser, FetchSettles 0 (Inr \<lparr>ok = True\<rparr>), JsonSettles 0 (Inr JNull)]) = None \<and>
   fst (getCurrentUser (run (initial [''access_token'' \<mapsto> ''t''] ''/home'')
       [CallGetCurrentUser, FetchSettles 0 (Inr \<lparr>ok = True\<rparr>), JsonSettles 0 (Inr JNull)])) =
     Promise 1"
  using
    marker_cleared_when_settled [OF _ _ refl,
      where s = "run (initial [''access_token'' \<mapsto> ''t''] ''/home'') [CallGetCurrentUser]"
        and p = 0 and e = "''TypeError''" and acts = "[FetchSettles 0 (Inl ''TypeError'')]"
        and token = "''t''"]
    marker_cleared_when_settled [OF _ _ refl,
      where s = "run (initial [''access_token'' \<mapsto> ''t''] ''/home'') [CallGetCurrentUser]"
        and p = 0 and acts = "[FetchSettles 0 (Inr \<lparr>ok = False\<rparr>)]" and token = "''t''"]
    marker_cleared_when_settled [OF _ _ refl,
      where s = "run (initial [''access_token'' \<mapsto> ''t''] ''/home'') [CallGetCurrentUser]"
        and p = 0 and r = "Inr JNull"
        and acts = "[FetchSettles 0 (Inr \<lparr>ok = True\<rparr>), JsonSettles 0 (Inr JNull)]"
        and token = "''t''"]
  by (simp add: model_defs)

text \<open>
  The sentence of the spec promises a new request after every outcome. After a
  response that is not OK the token is gone (line 32), so the next call stops at
  line 16: the marker is clear, no user is cached, and yet no request is sent.
\<close>

theorem fresh_request_counterexample:
  "awaits (run (initial [''access_token'' \<mapsto> ''t''] ''/home'') [CallGetCurrentUser]) 0 AwaitFetch \<and>
   fetchPromise (run (initial [''access_token'' \<mapsto> ''t''] ''/home'')
       [CallGetCurrentUser, FetchSettles 0 (Inr \<lparr>ok = False\<rparr>)]) = None \<and>
   \<not> truthy (currentUser (run (initial [''access_token'' \<mapsto> ''t''] ''/home'')
       [CallGetCurrentUser, FetchSettles 0 (Inr \<lparr>ok = False\<rparr>)])) \<and>
   fst (getCurrentUser (run (initial [''access_token'' \<mapsto> ''t''] ''/home'')
       [CallGetCurrentUser, FetchSettles 0 (Inr \<lparr>ok = False\<rparr>)])) = Value JNull \<and>
   requests (snd (getCurrentUser (run (initial [''access_token'' \<mapsto> ''t''] ''/home'')
       [CallGetCurrentUser, FetchSettles 0 (Inr \<lparr>ok = False\<rparr>)]))) =
     requests (run (initial [''access_token'' \<mapsto> ''t''] ''/home'')
       [CallGetCurrentUser, FetchSettles 0 (Inr \<lparr>ok = False\<rparr>)]) \<and>
   length (requests (snd (getCurrentUser (run (initial [''access_token'' \<mapsto> ''t''] ''/home'')
       [CallGetCurrentUser, FetchSettles 0 (Inr \<lparr>ok = False\<rparr>)])))) = 1"
  by (simp add: model_defs)

subsection \<open>Clearing the cache\<close>

text \<open>
  C8, as the code has it. \<open>clearUserCache\<close> sets \<open>currentUser\<close> to \<open>null\<close> and changes
  nothing else: the token and \<open>fetchPromise\<close> are what they were. The next call of
  \<open>getCurrentUser\<close> sends a new request when no fetch is in flight and a non-empty
  token is stored; when a fetch is in flight it hands out that fetch's promise and
  sends nothing.
\<close>

theorem clearUserCache_frame:
  "clearUserCache s = (JUndefined, s\<lparr>currentUser := JNull\<rparr>) \<and>
   getToken (snd (clearUserCache s)) = getToken s \<and>
   fetchPromise (snd (clearUserCache s)) = fetchPromise s \<and>
   (fetchPromise s = None \<and> getItem ''access_token'' s = Some token \<and> token \<noteq> [] \<longrightarrow>
      fst (getCurrentUser (snd (clearUserCache s))) = Promise (length (promises s)) \<and>
      requests (snd (getCurrentUser (snd (clearUserCache s)))) = requests s @
        [\<lparr>url = ''/api/users/me'', headers = [(''Authorization'', ''Bearer '' @ token)]\<rparr>]) \<and>
   (fetchPromise s = Some p \<longrightarrow>
      getCurrentUser (snd (clearUserCache s)) = (Promise p, snd (clearUserCache s)))"
proof -
  let ?c = "s\<lparr>currentUser := JNull\<rparr>"
  have c: "clearUserCache s = (JUndefined, ?c)" by (simp add: clearUserCache_def)
  have a: "fst (getCurrentUser ?c) = Promise (length (promises s)) \<and>
      requests (snd (getCurrentUser ?c)) = requests s @
        [\<lparr>url = ''/api/users/me'', headers = [(''Authorization'', ''Bearer '' @ token)]\<rparr>]"
    if "fetchPromise s = None" "getItem ''access_token'' s = Some token" "token \<noteq> []"
    using getCurrentUser_fetches [of ?c token] that by (simp add: getItem_def)
  have b: "getCurrentUser ?c = (Promise p, ?c)" if "fetchPromise s = Some p"
    using getCurrentUser_pending [of ?c p] that by simp
  show ?thesis using a b by (simp add: c getToken_def getItem_def)
qed

theorem clearUserCache_frame_witness:
  "fetchPromise (run (initial [''access_token'' \<mapsto> ''t''] ''/home'')
       [CallGetCurrentUser, FetchSettles 0 (Inr \<lparr>ok = True\<rparr>),
        JsonSettles 0 (Inr (JObj [(''id'', JNum 1)]))]) = None \<and>
   currentUser (run (initial [''access_token'' \<mapsto> ''t''] ''/home'')
       [CallGetCurrentUser, FetchSettles 0 (Inr \<lparr>ok = True\<rparr>),
        JsonSettles 0 (Inr (JObj [(''id'', JNum 1)]))]) = JObj [(''id'', JNum 1)] \<and>
   getItem ''access_token'' (run (initial [''access_token'' \<mapsto> ''t''] ''/home'')
       [CallGetCurrentUser, FetchSettles 0 (Inr \<lparr>ok = True\<rparr>),
        JsonSettles 0 (Inr (JObj [(''id'', JNum 1)]))]) = Some ''t'' \<and>
   fst (getCurrentUser (snd (clearUserCache (run (initial [''access_token'' \<mapsto> ''t''] ''/home'')
       [CallGetCurrentUser, FetchSettles 0 (Inr \<lparr>ok = True\<rparr>),
        JsonSettles 0 (Inr (JObj [(''id'', JNum 1)]))])))) = Promise 1 \<and>
   length (requests (snd (getCurrentUser (snd (clearUserCache
     (run (initial [''access_token'' \<mapsto> ''t''] ''/home'')
       [CallGetCurrentUser, FetchSettles 0 (Inr \<lparr>ok = True\<rparr>),
        JsonSettles 0 (Inr (JObj [(''id'', JNum 1)]))])))))) = 2 \<and>
   fetchPromise (run (initial [''access_token'' \<mapsto> ''t''] ''/home'') [CallGetCurrentUser]) = Some 0 \<and>
   fst (getCurrentUser (snd (clearUserCache
     (run (initial [''access_token'' \<mapsto> ''t''] ''/home'') [CallGetCurrentUser])))) = Promise 0"
  using
    clearUserCache_frame [where s = "run (initial [''access_token'' \<mapsto> ''t''] ''/home'')
       [CallGetCurrentUser, FetchSettles 0 (Inr \<lparr>ok = True\<rparr>),
        JsonSettles 0 (Inr (JObj [(''id'', JNum 1)]))]" and token = "''t''" and p = 0]
    clearUserCache_frame [where s = "run (initial [''access_token'' \<mapsto> ''t''] ''/home'')
       [CallGetCurrentUser]" and token = "''t''" and p = 0]
  by (simp add: model_defs)

text \<open>
  The sentence of the spec promises a new request after every \<open>clearUserCache\<close>.
  With a fetch in flight the next call returns at line 11: one request has been sent
  before the cache was cleared, and none is sent after it.
\<close>

theorem refetch_counterexample:
  "fetchPromise (run (initial [''access_token'' \<mapsto> ''t''] ''/home'') [CallGetCurrentUser]) = Some 0 \<and>
   getToken (run (initial [''access_token'' \<mapsto> ''t''] ''/home'') [CallGetCurrentUser]) = Some ''t'' \<and>
   length (requests (run (initial [''access_token'' \<mapsto> ''t''] ''/home'') [CallGetCurrentUser])) = 1 \<and>
   getToken (run (initial [''access_token'' \<mapsto> ''t''] ''/home'')
       [CallGetCurrentUser, CallClearUserCache]) = Some ''t'' \<and>
   fst (getCurrentUser (run (initial [''access_token'' \<mapsto> ''t''] ''/home'')
       [CallGetCurrentUser, CallClearUserCache])) = Promise 0 \<and>
   requests (snd (getCurrentUser (run (initial [''access_token'' \<mapsto> ''t''] ''/home'')
       [CallGetCurrentUser, CallClearUserCache]))) =
     requests (run (initial [''access_token'' \<mapsto> ''t''] ''/home'') [CallGetCurrentUser]) \<and>
   length (requests (snd (getCurrentUser (run (initial [''access_token'' \<mapsto> ''t''] ''/home'')
       [CallGetCurrentUser, CallClearUserCache])))) = 1"
  by (simp add: model_defs)

subsection \<open>Logging out during a fetch\<close>

text \<open>
  C10. \<open>logout\<close> does not touch \<open>fetchPromise\<close> or the promise store. When it is called
  while a fetch is in flight, \<open>fetchPromise\<close> is still that fetch's promise
  afterwards and \<open>currentUser\<close> is \<open>null\<close>; when the fetch then settles with an OK
  response and a body other than \<open>null\<close>, line 28 stores the body in \<open>currentUser\<close>,
  with no call of \<open>getCurrentUser\<close> after the logout and no request sent.
\<close>

theorem logout_keeps_marker:
  assumes "s = run (initial ls loc) acts"
    and "awaits s p AwaitFetch"
    and "ok resp"
    and "v \<noteq> JNull"
    and "s1 = snd (logout s)"
    and "s2 = run s1 [FetchSettles p (Inr resp), JsonSettles p (Inr v)]"
  shows "fetchPromise s = Some p \<and>
    fetchPromise s1 = Some p \<and>
    promises s1 = promises s \<and>
    currentUser s1 = JNull \<and>
    getToken s1 = None \<and>
    currentUser s2 = v \<and> currentUser s2 \<noteq> JNull \<and>
    requests s2 = requests s"
proof -
  have wf: "wf_state s" using assms(1) by (simp add: wf_reachable)
  have "p \<in> set (in_flight s)" using assms(2) by (simp add: in_flight_iff awaits_def)
  then have m: "fetchPromise s = Some p" using wf_in_flight_marker [OF wf] by blast
  have s1: "s1 = s\<lparr>localStorage := (localStorage s)(''access_token'' := None),
        currentUser := JNull, href := ''/''\<rparr>"
    by (simp add: assms(5) logout_def removeItem_def Let_def)
  have aw: "awaits s1 p AwaitFetch" using assms(2) by (simp add: s1 awaits_def)
  have s2: "s2 = s1\<lparr>currentUser := v, fetchPromise := None,
      promises := (promises s1)[p := Fulfilled v]\<rparr>"
    unfolding assms(6) using aw assms(3) by (rule ok_json_run)
  show ?thesis using m assms(4) by (simp add: s2) (simp add: s1 getToken_def getItem_def)
qed

theorem logout_keeps_marker_witness:
  "awaits (run (initial [''access_token'' \<mapsto> ''t''] ''/home'') [CallGetCurrentUser]) 0 AwaitFetch \<and>
   fetchPromise (snd (logout (run (initial [''access_token'' \<mapsto> ''t''] ''/home'') [CallGetCurrentUser]))) =
     Some 0 \<and>
   currentUser (snd (logout (run (initial [''access_token'' \<mapsto> ''t''] ''/home'') [CallGetCurrentUser]))) =
     JNull \<and>
   currentUser (run (snd (logout (run (initial [''access_token'' \<mapsto> ''t''] ''/home'') [CallGetCurrentUser])))
       [FetchSettles 0 (Inr \<lparr>ok = True\<rparr>), JsonSettles 0 (Inr (JObj [(''id'', JNum 1)]))]) =
     JObj [(''id'', JNum 1)] \<and>
   getToken (run (snd (logout (run (initial [''access_token'' \<mapsto> ''t''] ''/home'') [CallGetCurrentUser])))
       [FetchSettles 0 (Inr \<lparr>ok = True\<rparr>), JsonSettles 0 (Inr (JObj [(''id'', JNum 1)]))]) = None"
  using logout_keeps_marker [OF refl _ _ _ refl refl,
      where ls = "[''access_token'' \<mapsto> ''t'']" and loc = "''/home''"
        and acts = "[CallGetCurrentUser]" and p = 0 and resp = "\<lparr>ok = True\<rparr>"
        and v = "JObj [(''id'', JNum 1)]"]
  by (simp add: model_defs)

end
